theory Spec2Isabelle
  imports
    Main
    "HOL-Library.Char_ord"
    "HOL-Library.List_Lexorder"
    "HOL-Library.Product_Lexorder"
    "HOL-Library.Sublist"
begin

section \<open>The Redis store behind the matchmaking queue\<close>

text \<open>
  \<^verbatim>\<open>RedisMatchmakingQueue\<close> (SCALE_TO_5000.md, \<^verbatim>\<open>redis_matchmaking.py\<close>) keeps all of its
  state in four families of Redis keys: the sorted set \<^verbatim>\<open>queue:global\<close>, the JSON documents
  \<^verbatim>\<open>player:{user_id}\<close> and \<^verbatim>\<open>room:{room_id}\<close>, and the strings \<^verbatim>\<open>player_room:{user_id}\<close>.
  The model is one record with a component for each family, keyed by the part of the key
  after the prefix. \<^verbatim>\<open>to_json\<close>/\<^verbatim>\<open>from_json\<close> and \<^verbatim>\<open>json.dumps\<close>/\<^verbatim>\<open>json.loads\<close> are
  inverse to each other on these documents, so a stored document is the record itself.

  Clock readings (\<^verbatim>\<open>datetime.utcnow()\<close>) are arguments of the operations that read the
  clock, as integers (microseconds); only their order is ever used. The store is taken to
  answer every command: the \<^verbatim>\<open>except Exception\<close> branches of the methods, which are reached
  only when the Redis client raises, and the expiry of keys written with \<^verbatim>\<open>ex=3600\<close> are
  outside the model. A state in which a queued identity has no \<^verbatim>\<open>player:\<close> document (as
  after an expiry) is a value of the state type all the same.
\<close>

record Player =
  user_id :: string
  username :: string
  elo_rating :: int
  queue_time :: int
  socket_id :: string

record battle =
  room_id :: string
  player1 :: Player
  player2 :: Player
  challenge_id :: string
  status :: string
  created_at :: int
  player1_code :: string
  player2_code :: string
  player1_tests :: int
  player2_tests :: int
  total_tests :: int
  winner_id :: "string option"

text \<open>
  A Redis sorted set: members with a score each, no member twice. It is kept as an
  association list; \<^verbatim>\<open>ZADD\<close> (without \<^verbatim>\<open>NX\<close>) on a member that is present replaces its
  score, \<^verbatim>\<open>ZRANGE\<close> lists the members by ascending score and, among equal scores, in the
  lexicographic order of the members.
\<close>

type_synonym zset = "(string \<times> int) list"

fun zadd :: "zset \<Rightarrow> string \<Rightarrow> int \<Rightarrow> zset" where
  "zadd [] m sc = [(m, sc)]"
| "zadd ((m', sc') # z) m sc =
     (if m' = m then (m, sc) # z else (m', sc') # zadd z m sc)"

definition zrem :: "zset \<Rightarrow> string \<Rightarrow> zset" where
  "zrem z m = filter (\<lambda>e. fst e \<noteq> m) z"

definition zcard :: "zset \<Rightarrow> nat" where
  "zcard z = length z"

definition zscore :: "zset \<Rightarrow> string \<Rightarrow> int option" where
  "zscore z m = map_of z m"

definition zkey :: "string \<times> int \<Rightarrow> int \<times> string" where
  "zkey e = (snd e, fst e)"

definition zrange_all :: "zset \<Rightarrow> string list" where
  \<comment> \<open>\<^verbatim>\<open>zrange(key, 0, -1)\<close>\<close>
  "zrange_all z = map fst (sort_key zkey z)"

definition zrange_first :: "zset \<Rightarrow> string list" where
  \<comment> \<open>\<^verbatim>\<open>zrange(key, 0, 0)\<close>\<close>
  "zrange_first z = take 1 (zrange_all z)"

definition zmembers :: "zset \<Rightarrow> string set" where
  "zmembers z = set (map fst z)"

record redis =
  queue :: zset
  players :: "string \<rightharpoonup> Player"
  rooms :: "string \<rightharpoonup> battle"
  player_room :: "string \<rightharpoonup> string"

text \<open>
  \<^verbatim>\<open>add_to_queue\<close> answers with a dictionary: \<^verbatim>\<open>{"success": True, "user_id": ...}\<close> is
  \<open>Inr\<close> of the identity, \<^verbatim>\<open>{"success": False, "error": ...}\<close> is \<open>Inl\<close> of the message.
\<close>

type_synonym add_result = "string + string"

definition success_of :: "add_result \<Rightarrow> bool" where
  "success_of r = (case r of Inl _ \<Rightarrow> False | Inr _ \<Rightarrow> True)"

definition get_queue_size :: "redis \<Rightarrow> nat" where
  "get_queue_size s = zcard (queue s)"

definition add_to_queue ::
  "redis \<Rightarrow> string \<Rightarrow> string \<Rightarrow> int \<Rightarrow> string \<Rightarrow> int \<Rightarrow> int \<Rightarrow> redis \<times> add_result" where
  \<comment> \<open>\<open>tq\<close> and \<open>ts\<close> are the two clock readings: the player's \<^verbatim>\<open>queue_time\<close> and the score.\<close>
  "add_to_queue s uid uname elo sid tq ts =
     (let player = \<lparr>user_id = uid, username = uname, elo_rating = elo,
                     queue_time = tq, socket_id = sid\<rparr>
      in (s\<lparr>queue := zadd (queue s) uid ts,
            players := (players s)(uid \<mapsto> player)\<rparr>,
          Inr uid))"

definition remove_from_queue :: "redis \<Rightarrow> string \<Rightarrow> redis \<times> bool" where
  "remove_from_queue s uid =
     (s\<lparr>queue := zrem (queue s) uid, players := (players s)(uid := None)\<rparr>, True)"

subsection \<open>Searching the queue and creating a room\<close>

text \<open>
  \<^verbatim>\<open>closest_diff\<close> starts as \<^verbatim>\<open>float('inf')\<close>: \<open>None\<close> stands for it, and \<open>below d closest\<close>
  is the test \<^verbatim>\<open>elo_diff < closest_diff\<close>.
\<close>

definition below :: "int \<Rightarrow> int option \<Rightarrow> bool" where
  "below d closest = (case closest of None \<Rightarrow> True | Some k \<Rightarrow> d < k)"

fun best_match_loop ::
  "(string \<rightharpoonup> Player) \<Rightarrow> string \<Rightarrow> int \<Rightarrow> int \<Rightarrow> string list \<Rightarrow>
   string option \<Rightarrow> int option \<Rightarrow> string option" where
  "best_match_loop ps pid pelo tol [] best_match closest_diff = best_match"
| "best_match_loop ps pid pelo tol (c # cs) best_match closest_diff =
     (if c = pid then best_match_loop ps pid pelo tol cs best_match closest_diff
      else case ps c of
        None \<Rightarrow> best_match_loop ps pid pelo tol cs best_match closest_diff
      | Some candidate \<Rightarrow>
          (let elo_diff = \<bar>pelo - elo_rating candidate\<bar>
           in if below elo_diff closest_diff \<and> elo_diff \<le> tol
              then best_match_loop ps pid pelo tol cs (Some c) (Some elo_diff)
              else best_match_loop ps pid pelo tol cs best_match closest_diff))"

definition find_best_match :: "redis \<Rightarrow> string \<Rightarrow> int \<Rightarrow> string option" where
  "find_best_match s pid elo_tolerance =
     (case players s pid of
        None \<Rightarrow> None
      | Some player \<Rightarrow>
          best_match_loop (players s) pid (elo_rating player) elo_tolerance
            (zrange_all (queue s)) None None)"

text \<open>
  \<^verbatim>\<open>attempt_matchmaking\<close>. The room identifier is \<^verbatim>\<open>room_\<close> followed by the first twelve
  hexadecimal digits of a fresh UUID; the digits \<open>hex\<close> and the clock reading \<open>now\<close> are
  arguments. \<^verbatim>\<open>if not player2_id\<close> is also taken by an empty identity. Reading a \<^verbatim>\<open>player:\<close>
  document that is absent makes \<^verbatim>\<open>from_json\<close> raise, which the method turns into \<^verbatim>\<open>None\<close>.
\<close>

definition attempt_matchmaking ::
  "redis \<Rightarrow> string \<Rightarrow> string \<Rightarrow> int \<Rightarrow> redis \<times> battle option" where
  "attempt_matchmaking s cid hex now =
     (if get_queue_size s < 2 then (s, None)
      else case zrange_first (queue s) of
        [] \<Rightarrow> (s, None)
      | player1_id # _ \<Rightarrow>
          (case find_best_match s player1_id 200 of
             None \<Rightarrow> (s, None)
           | Some player2_id \<Rightarrow>
               if player2_id = [] then (s, None)
               else case players s player1_id of
                 None \<Rightarrow> (s, None)
               | Some player1_data \<Rightarrow>
                   (case players s player2_id of
                      None \<Rightarrow> (s, None)
                    | Some player2_data \<Rightarrow>
                        (let rid = ''room_'' @ take 12 hex;
                             battle_data =
                               \<lparr>room_id = rid, player1 = player1_data, player2 = player2_data,
                                challenge_id = cid, status = ''in_progress'', created_at = now,
                                player1_code = [], player2_code = [],
                                player1_tests = 0, player2_tests = 0, total_tests = 0,
                                winner_id = None\<rparr>
                         in (s\<lparr>queue := zrem (zrem (queue s) player1_id) player2_id,
                               rooms := (rooms s)(rid \<mapsto> battle_data),
                               player_room :=
                                 (player_room s)(player1_id \<mapsto> rid, player2_id \<mapsto> rid)\<rparr>,
                             Some battle_data)))))"

definition get_battle_room :: "redis \<Rightarrow> string \<Rightarrow> battle option" where
  "get_battle_room s rid = rooms s rid"

definition get_player_battle_room :: "redis \<Rightarrow> string \<Rightarrow> battle option" where
  "get_player_battle_room s uid =
     (case player_room s uid of
        None \<Rightarrow> None
      | Some rid \<Rightarrow> if rid = [] then None else get_battle_room s rid)"

definition update_test_results ::
  "redis \<Rightarrow> string \<Rightarrow> string \<Rightarrow> int \<Rightarrow> int \<Rightarrow> redis \<times> bool" where
  "update_test_results s rid pid tests_passed tests_total =
     (case get_battle_room s rid of
        None \<Rightarrow> (s, False)
      | Some b \<Rightarrow>
          (let b1 = b\<lparr>total_tests := tests_total\<rparr>;
               b2 = (if pid = user_id (player1 b1) then b1\<lparr>player1_tests := tests_passed\<rparr>
                     else b1\<lparr>player2_tests := tests_passed\<rparr>);
               b3 = (if tests_passed = tests_total
                     then b2\<lparr>winner_id := Some pid, status := ''completed''\<rparr> else b2)
           in (s\<lparr>rooms := (rooms s)(rid \<mapsto> b3)\<rparr>, True)))"

subsection \<open>Notions used to state the properties of the queue\<close>

definition gap :: "int \<Rightarrow> Player \<Rightarrow> int" where
  \<comment> \<open>the rating difference \<^verbatim>\<open>abs(player_elo - candidate.elo_rating)\<close>\<close>
  "gap pelo p = \<bar>pelo - elo_rating p\<bar>"

text \<open>
  The states the queue is in while identities are the non-empty strings that
  \<^verbatim>\<open>register_user\<close> admits (\<^verbatim>\<open>if not user_id or not username\<close> is refused) and no
  \<^verbatim>\<open>player:\<close> document has expired: every queued identity is non-empty and has its own
  document.
\<close>

definition queue_inv :: "redis \<Rightarrow> bool" where
  "queue_inv s =
     (\<forall>m\<in>set (map fst (queue s)).
        m \<noteq> [] \<and> (case players s m of None \<Rightarrow> False | Some p \<Rightarrow> user_id p = m))"

definition mk_player :: "string \<Rightarrow> string \<Rightarrow> int \<Rightarrow> int \<Rightarrow> string \<Rightarrow> Player" where
  "mk_player uid uname elo tq sid =
     \<lparr>user_id = uid, username = uname, elo_rating = elo, queue_time = tq, socket_id = sid\<rparr>"

definition empty_redis :: redis where
  "empty_redis = \<lparr>queue = [], players = Map.empty, rooms = Map.empty, player_room = Map.empty\<rparr>"

definition scenario_A :: redis where
  \<comment> \<open>Alice (1000), Bob (1100) and Carol (1500) have joined, in this order.\<close>
  "scenario_A =
     fst (add_to_queue
       (fst (add_to_queue
         (fst (add_to_queue empty_redis ''alice'' ''Alice'' 1000 ''sid_a'' 10 10))
         ''bob'' ''Bob'' 1100 ''sid_b'' 12 12))
       ''carol'' ''Carol'' 1500 ''sid_c'' 15 15)"


section \<open>The validator and the sandbox\<close>

subsection \<open>The syntax tree\<close>

text \<open>
  \<^verbatim>\<open>check_forbidden_imports_ast\<close> (INTERVIEW_DEFENSE_GUIDE.md, \<^verbatim>\<open>sandbox_runner.py\<close>) walks
  the tree that \<^verbatim>\<open>ast.parse\<close> returns. The parser is Python's own and is an argument of
  the model: it gives the tree, or raises \<^verbatim>\<open>SyntaxError\<close>, or raises another exception
  (\<^verbatim>\<open>ValueError\<close> for a source with a null byte, \<^verbatim>\<open>RecursionError\<close>, ...), which
  \<^verbatim>\<open>except SyntaxError\<close> does not catch and which leaves the validator and
  \<^verbatim>\<open>execute_code\<close> as it is: \<open>Inl\<close> of its message. Of the node classes
  the validator tells apart \<^verbatim>\<open>Import\<close>, \<^verbatim>\<open>ImportFrom\<close> and \<^verbatim>\<open>Call\<close>, and, as the function
  of a call, \<^verbatim>\<open>Name\<close> and \<^verbatim>\<open>Attribute\<close>. \<open>Str\<close> is a string constant; \<open>Other\<close> is a node
  of any other class (\<^verbatim>\<open>Module\<close>, \<^verbatim>\<open>Expr\<close>, \<^verbatim>\<open>Assign\<close>, \<^verbatim>\<open>Subscript\<close>, \<^verbatim>\<open>keyword\<close>, ...)
  with its child nodes in the order of \<^verbatim>\<open>ast.iter_child_nodes\<close>. An alias is the pair
  of \<^verbatim>\<open>name\<close> and \<^verbatim>\<open>asname\<close>. The walk also visits alias nodes and expression contexts
  (\<^verbatim>\<open>Load\<close>); they have no children and the validator passes over them, so the model
  leaves them out of the list of children. A call's children are its function, its
  arguments and its keywords, in this order.
\<close>

datatype node =
    Import "(string \<times> string option) list"
  | ImportFrom "string option" "(string \<times> string option) list"
  | Call node "node list"
  | Name string
  | Attribute node string
  | Str string
  | Other "node list"

datatype parse = Tree node | SyntaxError string | OtherError string

fun children :: "node \<Rightarrow> node list" where
  "children (Call func args) = func # args"
| "children (Attribute v _) = [v]"
| "children (Other ns) = ns"
| "children _ = []"

text \<open>\<^verbatim>\<open>ast.walk\<close>: breadth first, from a queue of nodes still to visit.\<close>

function walk :: "node list \<Rightarrow> node list" where
  "walk [] = []"
| "walk (n # todo) = n # walk (todo @ children n)"
  by pat_completeness auto
termination
proof (relation "measure (\<lambda>todo. sum_list (map (\<lambda>n. Suc (size n)) todo))")
  show "wf (measure (\<lambda>todo. sum_list (map (\<lambda>n. Suc (size n)) todo)))" by simp
next
  fix n :: node and todo :: "node list"
  have le: "sum_list (map (\<lambda>n. Suc (size n)) ns) \<le> size_list size ns" for ns :: "node list"
    by (induction ns) auto
  have "sum_list (map (\<lambda>n. Suc (size n)) (children n)) < Suc (size n)"
  proof (cases n)
    case (Call func args)
    then show ?thesis using le[of args] by simp
  next
    case (Other ns)
    then show ?thesis using le[of ns] by simp
  qed simp_all
  then show "(todo @ children n, n # todo)
      \<in> measure (\<lambda>todo. sum_list (map (\<lambda>n. Suc (size n)) todo))"
    by simp
qed

definition FORBIDDEN_IMPORTS :: "string list" where
  "FORBIDDEN_IMPORTS =
     [''os'', ''sys'', ''subprocess'', ''shutil'', ''socket'', ''requests'',
      ''urllib'', ''http'', ''ftplib'', ''smtplib'', ''ssl'', ''threading'',
      ''multiprocessing'', ''asyncio'', ''__import__'', ''importlib'']"

definition top_module :: "string \<Rightarrow> string" where
  \<comment> \<open>\<^verbatim>\<open>name.split('.')[0]\<close>\<close>
  "top_module name = takeWhile (\<lambda>c. c \<noteq> CHR ''.'') name"

text \<open>What the body of the loop does at one node: \<open>Some msg\<close> is \<^verbatim>\<open>return False, msg\<close>.\<close>

fun check_node :: "node \<Rightarrow> string option" where
  "check_node (Import names) =
     (case find (\<lambda>alias. top_module (fst alias) \<in> set FORBIDDEN_IMPORTS) names of
        None \<Rightarrow> None
      | Some alias \<Rightarrow> Some (''Forbidden import detected: '' @ top_module (fst alias)))"
| "check_node (ImportFrom module names) =
     (let module_name = (case module of None \<Rightarrow> [] | Some m \<Rightarrow> top_module m)
      in if module_name \<in> set FORBIDDEN_IMPORTS
         then Some (''Forbidden import detected: '' @ module_name) else None)"
| "check_node (Call (Name fid) args) =
     (if fid \<in> set [''__import__'', ''eval'', ''exec'', ''compile'', ''open'']
      then Some (''Dangerous function call blocked: '' @ fid) else None)"
| "check_node (Call (Attribute v attr) args) =
     (if attr \<in> set [''__import__'', ''__loader__'']
      then Some (''Dangerous attribute access blocked: '' @ attr) else None)"
| "check_node _ = None"

fun first_rejection :: "node list \<Rightarrow> string option" where
  "first_rejection [] = None"
| "first_rejection (n # ns) =
     (case check_node n of Some msg \<Rightarrow> Some msg | None \<Rightarrow> first_rejection ns)"

definition check_forbidden_imports_ast ::
  "(string \<Rightarrow> parse) \<Rightarrow> string \<Rightarrow> string + bool \<times> string" where
  "check_forbidden_imports_ast ast_parse code =
     (case ast_parse code of
        OtherError e \<Rightarrow> Inl e
      | SyntaxError e \<Rightarrow> Inr (False, ''Syntax error in code: '' @ e)
      | Tree tree \<Rightarrow>
          (case first_rejection (walk [tree]) of
             Some msg \<Rightarrow> Inr (False, msg)
           | None \<Rightarrow> Inr (True, [])))"

subsection \<open>Running a submission\<close>

record 'v test_case =
  input :: 'v
  expected :: 'v

datatype verdict = Passed | Failed string | Errored string

record ExecutionResult =
  success :: bool
  passed_tests :: int
  total_tests_run :: int
  test_results :: "verdict list"
  output_text :: string
  error :: string

text \<open>
  \<^verbatim>\<open>ExecutionResult\<close> has the fields of the source; \<open>total_tests_run\<close> is its
  \<^verbatim>\<open>total_tests\<close> (the room has a field of that name too), \<open>output_text\<close> its
  \<^verbatim>\<open>output\<close>, and the wall-clock \<^verbatim>\<open>execution_time\<close>, a float, is left out.
\<close>

datatype category = compile_error | runtime_error | timeout | resource_exceeded | malformed_output

fun category_name :: "category \<Rightarrow> string" where
  "category_name compile_error = ''compile-error''"
| "category_name runtime_error = ''runtime-error''"
| "category_name timeout = ''timeout''"
| "category_name resource_exceeded = ''resource-exceeded''"
| "category_name malformed_output = ''malformed-output''"

text \<open>
  What the spawned process does with a program, its test cases, the entry point and the
  timeout: it ends without a result document, for the reason given, or the harness runs
  to its end and gives each test case its verdict.
\<close>

datatype 'v run = Aborted category | Completed "'v test_case \<Rightarrow> verdict"

text \<open>
  Modelled from the spec: the body of \<^verbatim>\<open>execute_code\<close> after the validator's check (the
  source has \<^verbatim>\<open># ... rest of execute_code logic remains the same\<close> there; the file
  \<^verbatim>\<open>sandbox_runner.py\<close> is not among the sources). Spec 4.2: the program iterates the test
  cases invoking the entry point and serialises one outcome record per test; a per-test
  exception is that test's failure and does not suppress the others; on timeout the
  result has the category \<^verbatim>\<open>timeout\<close> and zero passed tests; malformed output has the
  category \<^verbatim>\<open>malformed-output\<close> and (spec 7) zero passed tests. The other categories that
  end a run without results are treated like these two.
\<close>

definition run_sandbox :: "'v run \<Rightarrow> 'v test_case list \<Rightarrow> ExecutionResult" where
  "run_sandbox r test_cases =
     (case r of
        Aborted cat \<Rightarrow>
          \<lparr>success = False, passed_tests = 0, total_tests_run = int (length test_cases),
           test_results = [], output_text = [], error = category_name cat\<rparr>
      | Completed harness \<Rightarrow>
          (let outcomes = map harness test_cases
           in \<lparr>success = True,
               passed_tests = int (length (filter (\<lambda>v. v = Passed) outcomes)),
               total_tests_run = int (length test_cases),
               test_results = outcomes, output_text = [], error = []\<rparr>))"

definition execute_code ::
  "(string \<Rightarrow> parse) \<Rightarrow>
   (string \<Rightarrow> 'v test_case list \<Rightarrow> string \<Rightarrow> int \<Rightarrow> 'v run) \<Rightarrow>
   string \<Rightarrow> 'v test_case list \<Rightarrow> string \<Rightarrow> int \<Rightarrow> string + ExecutionResult" where
  "execute_code ast_parse sandbox user_code test_cases function_name timeout_s =
     (case check_forbidden_imports_ast ast_parse user_code of
        Inl e \<Rightarrow> Inl e
      | Inr (is_safe, error_msg) \<Rightarrow>
          if \<not> is_safe
          then Inr \<lparr>success = False, passed_tests = 0,
                    total_tests_run = int (length test_cases),
                    test_results = [], output_text = [], error = error_msg\<rparr>
          else Inr (run_sandbox (sandbox user_code test_cases function_name timeout_s)
                      test_cases))"


section \<open>The Java executor\<close>

text \<open>
  \<^verbatim>\<open>execute_java_code\<close> (CONTRIBUTING.md, \<^verbatim>\<open>java_executor.py\<close>). What \<^verbatim>\<open>subprocess.run\<close>
  does is an argument: it raises \<^verbatim>\<open>TimeoutExpired\<close> when the child outlives the timeout
  (after killing it), raises something else, or returns the exit code with the captured
  output. \<open>loads\<close> stands for decoding and parsing the standard output and reading the
  keys \<^verbatim>\<open>passed\<close>, \<^verbatim>\<open>total\<close> and \<^verbatim>\<open>test_results\<close>: the message of the exception or the three
  values. For the compilation step \<open>Raised\<close> also stands for an exception while the
  temporary directory and the wrapper file are written. The answer is the dictionary of
  the source, with \<open>None\<close> for a key it lacks; the text of the wrapper
  (\<^verbatim>\<open>build_java_test_wrapper\<close>) only reaches the compiler and is not modelled.
\<close>

datatype proc = TimeoutExpired | Raised string | Exited int string string

record 'r java_reply =
  j_success :: bool
  j_passed_tests :: int
  j_total_tests :: int
  j_error :: "string option"
  j_test_results :: "'r option"

definition FORBIDDEN :: "string list" where
  "FORBIDDEN =
     [''java.lang.Runtime'', ''java.lang.ProcessBuilder'', ''java.io.File'',
      ''java.nio.file'', ''java.net.Socket'', ''java.sql'']"

text \<open>
  Python iterates over the set in an order of its own; which entry is named when several
  occur in the code depends on it, the verdict does not. The model takes the order of the
  source text.
\<close>

definition check_forbidden_imports_java :: "string \<Rightarrow> bool \<times> string" where
  "check_forbidden_imports_java code =
     (case find (\<lambda>forbidden. sublist forbidden code) FORBIDDEN of
        Some forbidden \<Rightarrow> (False, ''Forbidden import: '' @ forbidden)
      | None \<Rightarrow> (True, []))"

text \<open>\<^verbatim>\<open>str\<close> of an integer, for the f-string of the timeout message.\<close>

function str_nat :: "nat \<Rightarrow> string" where
  "str_nat n =
     (if n < 10 then [''0123456789'' ! n] else str_nat (n div 10) @ [''0123456789'' ! (n mod 10)])"
  by pat_completeness auto
termination
  by (relation "measure id") auto

definition str_int :: "int \<Rightarrow> string" where
  "str_int i = (if i < 0 then CHR ''-'' # str_nat (nat (- i)) else str_nat (nat i))"

definition java_failure :: "nat \<Rightarrow> string \<Rightarrow> 'r java_reply" where
  "java_failure n msg =
     \<lparr>j_success = False, j_passed_tests = 0, j_total_tests = int n,
      j_error = Some msg, j_test_results = None\<rparr>"

definition execute_java_code ::
  "proc \<Rightarrow> proc \<Rightarrow> (string \<Rightarrow> string + int \<times> int \<times> 'r) \<Rightarrow>
   string \<Rightarrow> 'tc list \<Rightarrow> string \<Rightarrow> int \<Rightarrow> 'r java_reply" where
  "execute_java_code javac java loads user_code test_cases class_name timeout_s =
     (case check_forbidden_imports_java user_code of
        (is_safe, err) \<Rightarrow>
          if \<not> is_safe then java_failure (length test_cases) err
          else case javac of
            TimeoutExpired \<Rightarrow>
              java_failure (length test_cases)
                (''Timeout: execution exceeded '' @ str_int timeout_s @ ''s'')
          | Raised e \<Rightarrow> java_failure (length test_cases) (''Execution error: '' @ e)
          | Exited returncode out err_text \<Rightarrow>
              if returncode \<noteq> 0
              then java_failure (length test_cases) (''Compilation error: '' @ err_text)
              else (case java of
                TimeoutExpired \<Rightarrow>
                  java_failure (length test_cases)
                    (''Timeout: execution exceeded '' @ str_int timeout_s @ ''s'')
              | Raised e \<Rightarrow> java_failure (length test_cases) (''Execution error: '' @ e)
              | Exited _ run_out _ \<Rightarrow>
                  (case loads run_out of
                     Inl e \<Rightarrow> java_failure (length test_cases) (''Execution error: '' @ e)
                   | Inr (passed, tot, results) \<Rightarrow>
                       \<lparr>j_success = True, j_passed_tests = passed, j_total_tests = tot,
                        j_error = None, j_test_results = Some results\<rparr>)))"

section \<open>The event handlers\<close>

text \<open>
  The puzzle library (\<^verbatim>\<open>get_challenge\<close>) is not among the sources. A challenge has its
  test cases and the signature of the entry point.
\<close>

record 'v challenge_case =
  input_data :: 'v
  expected_output :: 'v

record 'v challenge =
  test_cases :: "'v challenge_case list"
  function_signature :: string

text \<open>
  The test cases that \<^verbatim>\<open>submit_code\<close> (README.md) hands to \<^verbatim>\<open>execute_code\<close>: the list
  comprehension over \<^verbatim>\<open>challenge.test_cases\<close>, one dictionary with \<^verbatim>\<open>input\<close> and
  \<^verbatim>\<open>expected\<close> for each declared case (both arms of the conditional on \<^verbatim>\<open>input_data\<close>
  are \<^verbatim>\<open>tc.input_data\<close>). The handler as a whole is not modelled: it reads the room
  through attributes (\<^verbatim>\<open>battle_room.challenge_id\<close>), which the dictionary that
  \<^verbatim>\<open>RedisMatchmakingQueue.get_battle_room\<close> returns does not have, and the class it was
  written for (\<^verbatim>\<open>matchmaking.py\<close>) is not among the sources.
\<close>

definition prepare_test_cases :: "'v challenge \<Rightarrow> 'v test_case list" where
  "prepare_test_cases challenge =
     map (\<lambda>tc. \<lparr>input = input_data tc, expected = expected_output tc\<rparr>) (test_cases challenge)"

subsection \<open>Code synchronisation and disconnection\<close>

record connection =
  conn_socket_id :: string
  conn_username :: string
  conn_elo_rating :: int
  connected_at :: int

text \<open>
  The state of the server process: the store, the two connection maps of \<^verbatim>\<open>main.py\<close>
  and the table \<^verbatim>\<open>last_sync_timestamps\<close>, whose entry for a key is the value under
  \<^verbatim>\<open>'timestamp'\<close> (absent reads as 0).
\<close>

record server =
  store :: redis
  connected_users :: "string \<rightharpoonup> connection"
  socket_to_user :: "string \<rightharpoonup> string"
  last_sync_timestamps :: "string \<rightharpoonup> int"

text \<open>
  \<^verbatim>\<open>sync_code\<close> (INTERVIEW_DEFENSE_GUIDE.md) answers by emitting \<^verbatim>\<open>opponent_code_update\<close>
  to the room, skipping the sender's socket; the handler of the model returns the events
  it emits. The arguments of the event are the room, the socket skipped, and the
  \<^verbatim>\<open>code\<close>, \<^verbatim>\<open>user_id\<close> and \<^verbatim>\<open>timestamp\<close> of its payload.
\<close>

datatype event = Opponent_code_update string string string string int

text \<open>
  \<^verbatim>\<open>update_player_code\<close>, which \<^verbatim>\<open>sync_code\<close> calls, is a method of \<^verbatim>\<open>matchmaking.py\<close>,
  not among the sources: it is an argument of the model, a function on the store. The client's \<^verbatim>\<open>timestamp\<close> may be missing from the
  event (the client of \<^verbatim>\<open>App.jsx\<close> with \<^verbatim>\<open>debouncedSyncCode\<close> sends none):
  \<^verbatim>\<open>data.get('timestamp', 0)\<close>.
\<close>

definition sync_code ::
  "(redis \<Rightarrow> string \<Rightarrow> string \<Rightarrow> string \<Rightarrow> redis) \<Rightarrow>
   server \<Rightarrow> string \<Rightarrow> string \<Rightarrow> string \<Rightarrow> string \<Rightarrow> int option \<Rightarrow> server \<times> event list" where
  "sync_code update_player_code sv sid uid rid code ts =
     (let timestamp = (case ts of None \<Rightarrow> 0 | Some t \<Rightarrow> t)
      in case get_battle_room (store sv) rid of
           None \<Rightarrow> (sv, [])
         | Some battle_room \<Rightarrow>
             (let key = rid @ '':'' @ uid;
                  last_ts = (case last_sync_timestamps sv key of None \<Rightarrow> 0 | Some t \<Rightarrow> t)
              in if timestamp > 0 \<and> timestamp - last_ts < 200 then (sv, [])
                 else (sv\<lparr>last_sync_timestamps := (last_sync_timestamps sv)(key \<mapsto> timestamp),
                          store := update_player_code (store sv) rid uid code\<rparr>,
                       [Opponent_code_update rid sid code uid timestamp])))"

text \<open>
  What a client shows as its opponent's code (\<^verbatim>\<open>App.jsx\<close>:
  \<^verbatim>\<open>on('opponent_code_update', (data) => setOpponentCode(data.code))\<close>): a client in room
  \<open>room\<close> with socket \<open>me\<close> receives the updates sent to its room that do not skip it.
\<close>

fun client_step :: "string \<Rightarrow> string \<Rightarrow> string \<Rightarrow> event \<Rightarrow> string" where
  "client_step room me opponent_code (Opponent_code_update r skip code uid t) =
     (if r = room \<and> skip \<noteq> me then code else opponent_code)"

definition opponent_code_after :: "string \<Rightarrow> string \<Rightarrow> string \<Rightarrow> event list \<Rightarrow> string" where
  "opponent_code_after room me opponent_code evs = foldl (client_step room me) opponent_code evs"

text \<open>\<^verbatim>\<open>disconnect\<close> (README.md); \<^verbatim>\<open>if user_id:\<close> is false for an empty identity too.\<close>

definition disconnect :: "server \<Rightarrow> string \<Rightarrow> server" where
  "disconnect sv sid =
     (case socket_to_user sv sid of
        None \<Rightarrow> sv
      | Some uid \<Rightarrow>
          if uid = [] then sv
          else sv\<lparr>store := fst (remove_from_queue (store sv) uid),
                  connected_users := (connected_users sv)(uid := None),
                  socket_to_user := (socket_to_user sv)(sid := None)\<rparr>)"


section \<open>Concrete inputs\<close>

text \<open>
  The tree of the one-line program \<^verbatim>\<open>getattr(__builtins__, '__import__')('os')\<close>:
  a module whose body is one expression statement, a call whose function is itself a
  call (of \<^verbatim>\<open>getattr\<close>).
\<close>

definition getattr_tree :: node where
  "getattr_tree =
     Other [Other [Call (Call (Name ''getattr'') [Name ''__builtins__'', Str ''__import__''])
                        [Str ''os'']]]"

text \<open>The trees of \<^verbatim>\<open>import os.path as p\<close> and of \<^verbatim>\<open>__import__('os')\<close>.\<close>

definition import_tree :: node where
  "import_tree = Other [Import [(''os.path'', Some ''p'')]]"

definition dunder_import_tree :: node where
  "dunder_import_tree = Other [Other [Call (Name ''__import__'') [Str ''os'']]]"

text \<open>
  A challenge of two test cases, a parser for programs without imports and calls, a
  parser that answers with a given tree, and a sandbox in which the harness
  runs to its end: the first test case passes and the second fails.
\<close>

definition palindrome :: "string challenge" where
  "palindrome =
     \<lparr>test_cases = [\<lparr>input_data = ''aba'', expected_output = ''True''\<rparr>,
                    \<lparr>input_data = ''ab'', expected_output = ''False''\<rparr>],
      function_signature = ''def is_palindrome(s)''\<rparr>"

definition parses_clean :: "string \<Rightarrow> parse" where
  "parses_clean code = Tree (Other [])"

definition parses_to :: "node \<Rightarrow> string \<Rightarrow> parse" where
  "parses_to tree code = Tree tree"

definition half_pass :: "string \<Rightarrow> string test_case list \<Rightarrow> string \<Rightarrow> int \<Rightarrow> string run" where
  "half_pass code cases fn t =
     Completed (\<lambda>tc. if input tc = ''aba'' then Passed else Failed ''expected False'')"

text \<open>
  The room of Alice and Bob, made from Scenario A, and the same room after the result of
  a submission by Alice that passes both tests has been recorded.
\<close>

definition duel :: redis where
  "duel = fst (attempt_matchmaking scenario_A ''palindrome'' ''0123456789abcdef'' 20)"

definition duel_room :: battle where
  "duel_room =
     \<lparr>room_id = ''room_0123456789ab'',
      player1 = mk_player ''alice'' ''Alice'' 1000 10 ''sid_a'',
      player2 = mk_player ''bob'' ''Bob'' 1100 12 ''sid_b'',
      challenge_id = ''palindrome'', status = ''in_progress'', created_at = 20,
      player1_code = [], player2_code = [],
      player1_tests = 0, player2_tests = 0, total_tests = 0,
      winner_id = None\<rparr>"

definition duel_room_won :: battle where
  "duel_room_won =
     duel_room\<lparr>status := ''completed'', player1_tests := 2, total_tests := 2,
               winner_id := Some ''alice''\<rparr>"

definition duel_won :: redis where
  "duel_won = fst (update_test_results duel ''room_0123456789ab'' ''alice'' 2 2)"

text \<open>
  A server in which Alice and Bob are connected and in their room, and the same server
  when the last text Alice synchronised, \<^verbatim>\<open>old\<close>, was applied at client time 1000.
\<close>

definition duel_server :: server where
  "duel_server =
     \<lparr>store = duel,
      connected_users =
        [''alice'' \<mapsto> \<lparr>conn_socket_id = ''sid_a'', conn_username = ''Alice'',
                         conn_elo_rating = 1000, connected_at = 5\<rparr>,
         ''bob'' \<mapsto> \<lparr>conn_socket_id = ''sid_b'', conn_username = ''Bob'',
                       conn_elo_rating = 1100, connected_at = 6\<rparr>],
      socket_to_user = [''sid_a'' \<mapsto> ''alice'', ''sid_b'' \<mapsto> ''bob''],
      last_sync_timestamps = Map.empty\<rparr>"

definition typing_server :: server where
  "typing_server =
     duel_server
       \<lparr>store := duel\<lparr>rooms := [''room_0123456789ab'' \<mapsto> duel_room\<lparr>player1_code := ''old''\<rparr>]\<rparr>,
        last_sync_timestamps := [''room_0123456789ab:alice'' \<mapsto> 1000]\<rparr>"

text \<open>The server of the duel after Alice, still in her room, has joined the queue again.\<close>

definition rejoined_server :: server where
  "rejoined_server =
     duel_server\<lparr>store := fst (add_to_queue duel ''alice'' ''Alice'' 1000 ''sid_a'' 40 40)\<rparr>"


section \<open>Properties of the matchmaking queue\<close>

lemma zadd_length: "m \<in> zmembers z \<Longrightarrow> length (zadd z m sc) = length z"
  unfolding zmembers_def by (induction z) force+

lemma zadd_members: "zmembers (zadd z m sc) = insert m (zmembers z)"
  unfolding zmembers_def by (induction z) force+

lemma zadd_score: "map_of (zadd z m sc) m = Some sc"
  by (induction z) auto

lemma zadd_score_other: "m' \<noteq> m \<Longrightarrow> map_of (zadd z m sc) m' = map_of z m'"
  by (induction z) auto

lemma zadd_distinct: "distinct (map fst z) \<Longrightarrow> distinct (map fst (zadd z m sc))"
proof (induction z)
  case Nil
  then show ?case by simp
next
  case (Cons e z)
  then show ?case using zadd_members[of z m sc] by (cases e) (auto simp: zmembers_def)
qed

lemma zrem_members: "zmembers (zrem z m) = zmembers z - {m}"
  by (auto simp: zrem_def zmembers_def)

lemma zrem_distinct: "distinct (map fst z) \<Longrightarrow> distinct (map fst (zrem z m))"
  by (simp add: zrem_def distinct_map_filter)

lemma zrange_all_set: "set (zrange_all z) = zmembers z"
  by (simp add: zrange_all_def zmembers_def)

lemma best_match_loop_spec:
  assumes "best_match_loop ps pid pelo tol cs best closest = r"
  shows "(r = best \<and>
          (\<forall>c\<in>set cs. \<forall>p. c \<noteq> pid \<and> ps c = Some p \<and> gap pelo p \<le> tol
             \<longrightarrow> \<not> below (gap pelo p) closest))
       \<or> (\<exists>xs m pm ys. cs = xs @ m # ys \<and> r = Some m \<and> m \<noteq> pid \<and> ps m = Some pm \<and>
             gap pelo pm \<le> tol \<and> below (gap pelo pm) closest \<and>
             (\<forall>c\<in>set xs. \<forall>p. c \<noteq> pid \<and> ps c = Some p \<longrightarrow> gap pelo pm < gap pelo p) \<and>
             (\<forall>c\<in>set ys. \<forall>p. c \<noteq> pid \<and> ps c = Some p \<longrightarrow> gap pelo pm \<le> gap pelo p))"
  using assms
proof (induction cs arbitrary: best closest)
  case Nil
  then show ?case by simp
next
  case (Cons c cs)
  consider (skip) "c = pid \<or> ps c = None"
    | (take) p where "c \<noteq> pid" "ps c = Some p" "below (gap pelo p) closest" "gap pelo p \<le> tol"
    | (keep) p where "c \<noteq> pid" "ps c = Some p"
        "\<not> (below (gap pelo p) closest \<and> gap pelo p \<le> tol)"
    by (cases "ps c") auto
  then show ?case
  proof cases
    case skip
    then have "best_match_loop ps pid pelo tol cs best closest = r"
      using Cons.prems by (auto split: option.splits)
    from Cons.IH[OF this] show ?thesis
    proof (elim disjE exE conjE)
      assume "r = best" and
        "\<forall>c\<in>set cs. \<forall>p. c \<noteq> pid \<and> ps c = Some p \<and> gap pelo p \<le> tol
           \<longrightarrow> \<not> below (gap pelo p) closest"
      then show ?thesis using skip by auto
    next
      fix xs m pm ys
      assume h: "cs = xs @ m # ys" "r = Some m" "m \<noteq> pid" "ps m = Some pm"
        "gap pelo pm \<le> tol" "below (gap pelo pm) closest"
        "\<forall>c\<in>set xs. \<forall>p. c \<noteq> pid \<and> ps c = Some p \<longrightarrow> gap pelo pm < gap pelo p"
        "\<forall>c\<in>set ys. \<forall>p. c \<noteq> pid \<and> ps c = Some p \<longrightarrow> gap pelo pm \<le> gap pelo p"
      have "c # cs = (c # xs) @ m # ys" using h(1) by simp
      moreover have "\<forall>c'\<in>set (c # xs). \<forall>p. c' \<noteq> pid \<and> ps c' = Some p
                        \<longrightarrow> gap pelo pm < gap pelo p"
        using h(7) skip by auto
      ultimately show ?thesis using h by blast
    qed
  next
    case take
    then have "best_match_loop ps pid pelo tol cs (Some c) (Some (gap pelo p)) = r"
      using Cons.prems by (simp add: gap_def Let_def)
    from Cons.IH[OF this] show ?thesis
    proof (elim disjE exE conjE)
      assume a: "r = Some c" and
        b: "\<forall>c'\<in>set cs. \<forall>p'. c' \<noteq> pid \<and> ps c' = Some p' \<and> gap pelo p' \<le> tol
           \<longrightarrow> \<not> below (gap pelo p') (Some (gap pelo p))"
      have "\<forall>c'\<in>set cs. \<forall>p'. c' \<noteq> pid \<and> ps c' = Some p' \<longrightarrow> gap pelo p \<le> gap pelo p'"
      proof (intro ballI allI impI)
        fix c' p' assume "c' \<in> set cs" "c' \<noteq> pid \<and> ps c' = Some p'"
        then show "gap pelo p \<le> gap pelo p'"
          using b take(4) by (cases "gap pelo p' \<le> tol") (auto simp: below_def)
      qed
      moreover have "c # cs = [] @ c # cs" by simp
      moreover have "\<forall>c'\<in>set []. \<forall>p'. c' \<noteq> pid \<and> ps c' = Some p'
                        \<longrightarrow> gap pelo p < gap pelo p'" by simp
      ultimately show ?thesis using a take by blast
    next
      fix xs m pm ys
      assume h: "cs = xs @ m # ys" "r = Some m" "m \<noteq> pid" "ps m = Some pm"
        "gap pelo pm \<le> tol" "below (gap pelo pm) (Some (gap pelo p))"
        "\<forall>c\<in>set xs. \<forall>p. c \<noteq> pid \<and> ps c = Some p \<longrightarrow> gap pelo pm < gap pelo p"
        "\<forall>c\<in>set ys. \<forall>p. c \<noteq> pid \<and> ps c = Some p \<longrightarrow> gap pelo pm \<le> gap pelo p"
      have lt: "gap pelo pm < gap pelo p" using h(6) by (simp add: below_def)
      have "c # cs = (c # xs) @ m # ys" using h(1) by simp
      moreover have "\<forall>c'\<in>set (c # xs). \<forall>p'. c' \<noteq> pid \<and> ps c' = Some p'
                        \<longrightarrow> gap pelo pm < gap pelo p'"
        using h(7) take(2) lt by auto
      moreover have "below (gap pelo pm) closest"
        using lt take(3) by (auto simp: below_def split: option.splits)
      ultimately show ?thesis using h(2,3,4,5,8) by blast
    qed
  next
    case keep
    then have "best_match_loop ps pid pelo tol cs best closest = r"
      using Cons.prems by (auto simp: gap_def Let_def)
    from Cons.IH[OF this] show ?thesis
    proof (elim disjE exE conjE)
      assume "r = best" and
        "\<forall>c\<in>set cs. \<forall>p. c \<noteq> pid \<and> ps c = Some p \<and> gap pelo p \<le> tol
           \<longrightarrow> \<not> below (gap pelo p) closest"
      then show ?thesis using keep by auto
    next
      fix xs m pm ys
      assume h: "cs = xs @ m # ys" "r = Some m" "m \<noteq> pid" "ps m = Some pm"
        "gap pelo pm \<le> tol" "below (gap pelo pm) closest"
        "\<forall>c\<in>set xs. \<forall>p. c \<noteq> pid \<and> ps c = Some p \<longrightarrow> gap pelo pm < gap pelo p"
        "\<forall>c\<in>set ys. \<forall>p. c \<noteq> pid \<and> ps c = Some p \<longrightarrow> gap pelo pm \<le> gap pelo p"
      have lt: "gap pelo pm < gap pelo p"
        using keep(3) h(5,6) by (auto simp: below_def split: option.splits)
      have "c # cs = (c # xs) @ m # ys" using h(1) by simp
      moreover have "\<forall>c'\<in>set (c # xs). \<forall>p'. c' \<noteq> pid \<and> ps c' = Some p'
                        \<longrightarrow> gap pelo pm < gap pelo p'"
        using h(7) keep(2) lt by auto
      ultimately show ?thesis using h by blast
    qed
  qed
qed

lemma best_match_loop_None:
  assumes "best_match_loop ps pid pelo tol cs None None = None"
  shows "\<forall>c\<in>set cs. \<forall>p. c \<noteq> pid \<and> ps c = Some p \<longrightarrow> tol < gap pelo p"
  using best_match_loop_spec[OF assms] by (fastforce simp: below_def)

lemma best_match_loop_Some:
  assumes "best_match_loop ps pid pelo tol cs None None = Some m"
  shows "\<exists>xs pm ys. cs = xs @ m # ys \<and> m \<noteq> pid \<and> ps m = Some pm \<and> gap pelo pm \<le> tol \<and>
           (\<forall>c\<in>set xs. \<forall>p. c \<noteq> pid \<and> ps c = Some p \<longrightarrow> gap pelo pm < gap pelo p) \<and>
           (\<forall>c\<in>set ys. \<forall>p. c \<noteq> pid \<and> ps c = Some p \<longrightarrow> gap pelo pm \<le> gap pelo p)"
  using best_match_loop_spec[OF assms] by auto

lemma zkey_le: "zkey a \<le> zkey b \<Longrightarrow> snd a \<le> snd b"
  by (auto simp: zkey_def less_eq_prod_def)

lemma zrange_all_split:
  assumes "zrange_all z = xs @ m # ys"
  shows "\<exists>sm. (m, sm) \<in> set z \<and> (\<forall>e\<in>set z. fst e \<in> set xs \<or> sm \<le> snd e)"
proof -
  let ?L = "sort_key zkey z"
  from assms have "map fst ?L = xs @ m # ys" by (simp add: zrange_all_def)
  then obtain L1 e L2 where L: "?L = L1 @ e # L2" "map fst L1 = xs" "fst e = m"
    by (auto simp: map_eq_append_conv map_eq_Cons_conv)
  have "sorted (map zkey ?L)" by simp
  then have le: "\<forall>e'\<in>set (e # L2). zkey e \<le> zkey e'"
    unfolding L(1) by (auto simp: sorted_append)
  have setL: "set ?L = set z" by simp
  have "e \<in> set z" using L(1) setL by (metis in_set_conv_decomp)
  then have "(m, snd e) \<in> set z" using L(3) by (metis prod.collapse)
  moreover have "\<forall>e'\<in>set z. fst e' \<in> set xs \<or> snd e \<le> snd e'"
  proof
    fix e' assume "e' \<in> set z"
    then have "e' \<in> set L1 \<or> e' \<in> set (e # L2)" using setL L(1) by auto
    then show "fst e' \<in> set xs \<or> snd e \<le> snd e'"
      using le L(2) zkey_le by (metis image_eqI list.set_map)
  qed
  ultimately show ?thesis by blast
qed

subsection \<open>C3: the head of the queue is paired with the closest rating within tolerance\<close>

text \<open>
  Claim C3. In a queue that is not empty, \<^verbatim>\<open>attempt_matchmaking\<close> takes the entry that has
  waited longest (\<open>h\<close>, first in \<^verbatim>\<open>ZRANGE\<close> order, so no entry has a smaller insertion key)
  and pairs it with the other queued entry whose rating is closest to its own, when that
  difference is at most 200; among equally close candidates the one chosen has the
  smallest insertion key. Both leave the queue and the room is stored. When no candidate
  is within 200, no match is produced and the state, the head included, is unchanged.
  The statement is for the states of \<open>queue_inv\<close>, which the empty store satisfies and
  the operations on the queue preserve. At Scenario A (ratings 1000, 1100 and 1500, the
  instance that follows the theorem) the first two are paired and the third stays queued,
  matched with nobody.
\<close>

theorem attempt_matchmaking_pairs_closest:
  assumes inv: "queue_inv s" and hd: "zrange_all (queue s) = h # rest"
  shows "\<exists>ph sh. players s h = Some ph \<and> (h, sh) \<in> set (queue s) \<and>
           (\<forall>e\<in>set (queue s). sh \<le> snd e) \<and>
           (case attempt_matchmaking s cid hex now of
              (s', None) \<Rightarrow>
                s' = s \<and>
                (\<forall>c\<in>zmembers (queue s) - {h}. \<forall>p. players s c = Some p
                   \<longrightarrow> 200 < gap (elo_rating ph) p)
            | (s', Some b) \<Rightarrow>
                player1 b = ph \<and> user_id (player1 b) = h \<and>
                (\<exists>m pm sm. player2 b = pm \<and> user_id pm = m \<and> players s m = Some pm \<and>
                   m \<in> zmembers (queue s) - {h} \<and> (m, sm) \<in> set (queue s) \<and>
                   gap (elo_rating ph) pm \<le> 200 \<and>
                   (\<forall>c\<in>zmembers (queue s) - {h}. \<forall>p. players s c = Some p
                      \<longrightarrow> gap (elo_rating ph) pm \<le> gap (elo_rating ph) p) \<and>
                   (\<forall>e\<in>set (queue s). \<forall>p. fst e \<noteq> h \<and> players s (fst e) = Some p \<and>
                        gap (elo_rating ph) p = gap (elo_rating ph) pm
                      \<longrightarrow> sm \<le> snd e) \<and>
                   zmembers (queue s') = zmembers (queue s) - {h, m} \<and>
                   rooms s' (room_id b) = Some b))"
proof -
  let ?q = "queue s"
  have mem: "set (zrange_all ?q) = zmembers ?q" by (rule zrange_all_set)
  have hmem: "h \<in> zmembers ?q" using hd mem by (metis list.set_intros(1))
  have known: "\<And>m. m \<in> zmembers ?q \<Longrightarrow> m \<noteq> [] \<and> (\<exists>p. players s m = Some p \<and> user_id p = m)"
    using inv by (auto simp: queue_inv_def zmembers_def split: option.splits)
  from known[OF hmem] obtain ph where ph: "players s h = Some ph" "user_id ph = h" by blast
  from zrange_all_split[of ?q "[]" h rest] hd
  obtain sh where sh: "(h, sh) \<in> set ?q" "\<forall>e\<in>set ?q. sh \<le> snd e" by auto
  have first: "zrange_first ?q = [h]" using hd by (simp add: zrange_first_def)
  let ?r = "best_match_loop (players s) h (elo_rating ph) 200 (h # rest) None None"
  have fbm: "find_best_match s h 200 = ?r" using ph hd by (simp add: find_best_match_def)
  have small: "get_queue_size s < 2 \<Longrightarrow> zmembers ?q - {h} = {}"
  proof -
    assume "get_queue_size s < 2"
    then have "length (zrange_all ?q) < 2"
      by (simp add: get_queue_size_def zcard_def zrange_all_def)
    then have "rest = []" using hd by simp
    then show ?thesis using mem hd by auto
  qed
  have body: "case attempt_matchmaking s cid hex now of
              (s', None) \<Rightarrow>
                s' = s \<and>
                (\<forall>c\<in>zmembers (queue s) - {h}. \<forall>p. players s c = Some p
                   \<longrightarrow> 200 < gap (elo_rating ph) p)
            | (s', Some b) \<Rightarrow>
                player1 b = ph \<and> user_id (player1 b) = h \<and>
                (\<exists>m pm sm. player2 b = pm \<and> user_id pm = m \<and> players s m = Some pm \<and>
                   m \<in> zmembers (queue s) - {h} \<and> (m, sm) \<in> set (queue s) \<and>
                   gap (elo_rating ph) pm \<le> 200 \<and>
                   (\<forall>c\<in>zmembers (queue s) - {h}. \<forall>p. players s c = Some p
                      \<longrightarrow> gap (elo_rating ph) pm \<le> gap (elo_rating ph) p) \<and>
                   (\<forall>e\<in>set (queue s). \<forall>p. fst e \<noteq> h \<and> players s (fst e) = Some p \<and>
                        gap (elo_rating ph) p = gap (elo_rating ph) pm
                      \<longrightarrow> sm \<le> snd e) \<and>
                   zmembers (queue s') = zmembers (queue s) - {h, m} \<and>
                   rooms s' (room_id b) = Some b)"
  proof (cases "get_queue_size s < 2")
    case True
    then have "attempt_matchmaking s cid hex now = (s, None)"
      by (simp add: attempt_matchmaking_def)
    moreover have "\<forall>c\<in>zmembers ?q - {h}. \<forall>p. players s c = Some p
                     \<longrightarrow> 200 < gap (elo_rating ph) p"
      using small[OF True] by blast
    ultimately show ?thesis by simp
  next
    case False
    show ?thesis
    proof (cases ?r)
      case None
      have "\<forall>c\<in>zmembers ?q - {h}. \<forall>p. players s c = Some p \<longrightarrow> 200 < gap (elo_rating ph) p"
        using best_match_loop_None[OF None] mem hd by auto
      then show ?thesis using False None first fbm by (simp add: attempt_matchmaking_def)
    next
      case (Some m)
      from best_match_loop_Some[OF Some]
      obtain xs pm ys where dec: "h # rest = xs @ m # ys" "m \<noteq> h"
          "players s m = Some pm" "gap (elo_rating ph) pm \<le> 200"
          "\<forall>c\<in>set xs. \<forall>p. c \<noteq> h \<and> players s c = Some p
             \<longrightarrow> gap (elo_rating ph) pm < gap (elo_rating ph) p"
          "\<forall>c\<in>set ys. \<forall>p. c \<noteq> h \<and> players s c = Some p
             \<longrightarrow> gap (elo_rating ph) pm \<le> gap (elo_rating ph) p"
        by blast
      note some = dec(1) Some dec(2-6)
      have mmem: "m \<in> zmembers ?q" using some(1) mem hd by (metis in_set_conv_decomp)
      from known[OF mmem] have mne: "m \<noteq> []" and um: "user_id pm = m" using some(4) by auto
      from zrange_all_split[of ?q xs m ys] some(1) hd
      obtain sm where sm: "(m, sm) \<in> set ?q" "\<forall>e\<in>set ?q. fst e \<in> set xs \<or> sm \<le> snd e" by auto
      have closest: "\<forall>c\<in>zmembers ?q - {h}. \<forall>p. players s c = Some p
                      \<longrightarrow> gap (elo_rating ph) pm \<le> gap (elo_rating ph) p"
      proof (intro ballI allI impI)
        fix c p assume c: "c \<in> zmembers ?q - {h}" "players s c = Some p"
        then have "c \<in> set xs \<or> c = m \<or> c \<in> set ys" using mem hd some(1) by auto
        then show "gap (elo_rating ph) pm \<le> gap (elo_rating ph) p"
          using c some(4,6,7) by force
      qed
      have tie: "\<forall>e\<in>set ?q. \<forall>p. fst e \<noteq> h \<and> players s (fst e) = Some p \<and>
                        gap (elo_rating ph) p = gap (elo_rating ph) pm
                      \<longrightarrow> sm \<le> snd e"
        using sm(2) some(6) by force
      have res: "attempt_matchmaking s cid hex now =
          (let rid = ''room_'' @ take 12 hex;
               battle_data =
                 \<lparr>room_id = rid, player1 = ph, player2 = pm,
                  challenge_id = cid, status = ''in_progress'', created_at = now,
                  player1_code = [], player2_code = [],
                  player1_tests = 0, player2_tests = 0, total_tests = 0,
                  winner_id = None\<rparr>
           in (s\<lparr>queue := zrem (zrem (queue s) h) m,
                 rooms := (rooms s)(rid \<mapsto> battle_data),
                 player_room := (player_room s)(h \<mapsto> rid, m \<mapsto> rid)\<rparr>,
               Some battle_data))"
        using False first fbm some(2,4) ph(1) mne by (simp add: attempt_matchmaking_def)
      have q': "zmembers (zrem (zrem ?q h) m) = zmembers ?q - {h, m}"
        by (auto simp: zrem_members)
      show ?thesis
        unfolding res Let_def using ph um some(3,4,5) mmem sm(1) closest tie q'
        by (simp, blast)
    qed
  qed
  show ?thesis
    by (rule exI[of _ ph], rule exI[of _ sh]) (intro conjI ph(1) sh body)
qed

lemma queue_inv_add_to_queue:
  assumes "queue_inv s" and "uid \<noteq> []"
  shows "queue_inv (fst (add_to_queue s uid uname elo sid tq ts))"
proof -
  have "set (map fst (zadd (queue s) uid ts)) = insert uid (set (map fst (queue s)))"
    using zadd_members[of "queue s" uid ts] by (simp add: zmembers_def)
  then show ?thesis
    using assms by (auto simp: queue_inv_def add_to_queue_def split: option.splits)
qed

lemma queue_inv_remove_from_queue:
  assumes "queue_inv s"
  shows "queue_inv (fst (remove_from_queue s uid))"
  using assms by (auto simp: queue_inv_def remove_from_queue_def zrem_def)

lemma queue_inv_empty: "queue_inv empty_redis"
  by (simp add: queue_inv_def empty_redis_def)

lemma queue_inv_shrink:
  assumes "queue_inv s" and "zmembers (queue s') \<subseteq> zmembers (queue s)"
    and "players s' = players s"
  shows "queue_inv s'"
  unfolding queue_inv_def
proof
  fix m assume "m \<in> set (map fst (queue s'))"
  then have "m \<in> set (map fst (queue s))" using assms(2) by (auto simp: zmembers_def)
  then show "m \<noteq> [] \<and> (case players s' m of None \<Rightarrow> False | Some p \<Rightarrow> user_id p = m)"
    using assms(1,3) unfolding queue_inv_def by force
qed

lemma queue_inv_attempt_matchmaking:
  assumes "queue_inv s"
  shows "queue_inv (fst (attempt_matchmaking s cid hex now))"
proof (rule queue_inv_shrink[OF assms])
  show "zmembers (queue (fst (attempt_matchmaking s cid hex now))) \<subseteq> zmembers (queue s)"
    by (auto simp: attempt_matchmaking_def Let_def zrem_members
        split: list.splits option.splits)
  show "players (fst (attempt_matchmaking s cid hex now)) = players s"
    by (auto simp: attempt_matchmaking_def Let_def split: list.splits option.splits)
qed

lemma queue_inv_update_test_results:
  assumes "queue_inv s"
  shows "queue_inv (fst (update_test_results s rid pid p t))"
  using assms
  by (auto simp: queue_inv_def update_test_results_def get_battle_room_def Let_def
      split: option.splits)

lemma scenario_A_eval:
  "scenario_A =
     \<lparr>queue = [(''alice'', 10), (''bob'', 12), (''carol'', 15)],
      players = [''alice'' \<mapsto> mk_player ''alice'' ''Alice'' 1000 10 ''sid_a'',
                 ''bob'' \<mapsto> mk_player ''bob'' ''Bob'' 1100 12 ''sid_b'',
                 ''carol'' \<mapsto> mk_player ''carol'' ''Carol'' 1500 15 ''sid_c''],
      rooms = Map.empty, player_room = Map.empty\<rparr>"
  by (simp add: scenario_A_def add_to_queue_def empty_redis_def mk_player_def)

theorem attempt_matchmaking_pairs_closest_witness:
  "queue_inv scenario_A \<and>
   zrange_all (queue scenario_A) = ''alice'' # [''bob'', ''carol''] \<and>
   (\<exists>ph sh. players scenario_A ''alice'' = Some ph \<and> (''alice'', sh) \<in> set (queue scenario_A) \<and>
      (\<forall>e\<in>set (queue scenario_A). sh \<le> snd e) \<and>
      (case attempt_matchmaking scenario_A ''palindrome'' ''0123456789abcdef'' 20 of
         (s', None) \<Rightarrow>
           s' = scenario_A \<and>
           (\<forall>c\<in>zmembers (queue scenario_A) - {''alice''}. \<forall>p. players scenario_A c = Some p
              \<longrightarrow> 200 < gap (elo_rating ph) p)
       | (s', Some b) \<Rightarrow>
           player1 b = ph \<and> user_id (player1 b) = ''alice'' \<and>
           (\<exists>m pm sm. player2 b = pm \<and> user_id pm = m \<and> players scenario_A m = Some pm \<and>
              m \<in> zmembers (queue scenario_A) - {''alice''} \<and> (m, sm) \<in> set (queue scenario_A) \<and>
              gap (elo_rating ph) pm \<le> 200 \<and>
              (\<forall>c\<in>zmembers (queue scenario_A) - {''alice''}. \<forall>p. players scenario_A c = Some p
                 \<longrightarrow> gap (elo_rating ph) pm \<le> gap (elo_rating ph) p) \<and>
              (\<forall>e\<in>set (queue scenario_A). \<forall>p. fst e \<noteq> ''alice'' \<and>
                   players scenario_A (fst e) = Some p \<and>
                   gap (elo_rating ph) p = gap (elo_rating ph) pm
                 \<longrightarrow> sm \<le> snd e) \<and>
              zmembers (queue s') = zmembers (queue scenario_A) - {''alice'', m} \<and>
              rooms s' (room_id b) = Some b))) \<and>
   (case attempt_matchmaking scenario_A ''palindrome'' ''0123456789abcdef'' 20 of
      (s', r) \<Rightarrow>
        map_option (\<lambda>b. (user_id (player1 b), user_id (player2 b))) r = Some (''alice'', ''bob'') \<and>
        queue s' = [(''carol'', 15)] \<and>
        attempt_matchmaking s' ''palindrome'' ''fedcba9876543210'' 30 = (s', None))"
proof -
  have inv: "queue_inv scenario_A"
    by (simp add: scenario_A_eval queue_inv_def mk_player_def)
  have hd: "zrange_all (queue scenario_A) = ''alice'' # [''bob'', ''carol'']"
    by (simp add: scenario_A_eval zrange_all_def zkey_def)
  have run: "case attempt_matchmaking scenario_A ''palindrome'' ''0123456789abcdef'' 20 of
      (s', r) \<Rightarrow>
        map_option (\<lambda>b. (user_id (player1 b), user_id (player2 b))) r = Some (''alice'', ''bob'') \<and>
        queue s' = [(''carol'', 15)] \<and>
        attempt_matchmaking s' ''palindrome'' ''fedcba9876543210'' 30 = (s', None)"
    by (simp add: scenario_A_eval attempt_matchmaking_def get_queue_size_def zcard_def
        zrange_first_def zrange_all_def zkey_def find_best_match_def below_def zrem_def
        mk_player_def Let_def)
  from attempt_matchmaking_pairs_closest[OF inv hd, where cid = "''palindrome''"
      and hex = "''0123456789abcdef''" and now = 20]
  show ?thesis by (intro conjI inv hd run)
qed

subsection \<open>C1: joining the queue while already queued\<close>

text \<open>
  Claim C1 says that \<^verbatim>\<open>add_to_queue\<close> with an identity that is already queued is refused
  and changes nothing, the insertion key included. The method has no test for presence:
  at Scenario A, queueing Alice again reports success and moves her key from 10 to 50.
\<close>

theorem add_to_queue_requeue_counterexample:
  "''alice'' \<in> zmembers (queue scenario_A) \<and>
   zscore (queue scenario_A) ''alice'' = Some 10 \<and>
   snd (add_to_queue scenario_A ''alice'' ''Alice'' 1000 ''sid_a2'' 50 50) = Inr ''alice'' \<and>
   success_of (snd (add_to_queue scenario_A ''alice'' ''Alice'' 1000 ''sid_a2'' 50 50)) \<and>
   zscore (queue (fst (add_to_queue scenario_A ''alice'' ''Alice'' 1000 ''sid_a2'' 50 50))) ''alice''
     = Some 50"
  by (simp add: scenario_A_eval add_to_queue_def zmembers_def zscore_def success_of_def)

text \<open>
  Claim C1, amended. \<^verbatim>\<open>add_to_queue\<close> with an identity that is already queued is accepted:
  it reports success, the size and the members of the queue stay as they were, the
  identity's insertion key becomes the new clock reading and its \<^verbatim>\<open>player:\<close> document is
  overwritten; the keys and documents of the other identities, the rooms and the
  player-to-room entries are unchanged.
\<close>

theorem add_to_queue_requeue:
  assumes "uid \<in> zmembers (queue s)"
  shows "case add_to_queue s uid uname elo sid tq ts of
           (s', r) \<Rightarrow>
             r = Inr uid \<and> success_of r \<and>
             get_queue_size s' = get_queue_size s \<and>
             zmembers (queue s') = zmembers (queue s) \<and>
             zscore (queue s') uid = Some ts \<and>
             players s' uid = Some (mk_player uid uname elo tq sid) \<and>
             (\<forall>m. m \<noteq> uid \<longrightarrow>
                zscore (queue s') m = zscore (queue s) m \<and> players s' m = players s m) \<and>
             rooms s' = rooms s \<and> player_room s' = player_room s"
  using assms
  by (auto simp: add_to_queue_def get_queue_size_def zcard_def zadd_length zadd_members
      zscore_def zadd_score zadd_score_other mk_player_def success_of_def)

theorem add_to_queue_requeue_witness:
  "''alice'' \<in> zmembers (queue scenario_A) \<and>
   (case add_to_queue scenario_A ''alice'' ''Alice'' 1000 ''sid_a2'' 50 50 of
      (s', r) \<Rightarrow>
        r = Inr ''alice'' \<and> success_of r \<and>
        get_queue_size s' = get_queue_size scenario_A \<and>
        zmembers (queue s') = zmembers (queue scenario_A) \<and>
        zscore (queue s') ''alice'' = Some 50 \<and>
        players s' ''alice'' = Some (mk_player ''alice'' ''Alice'' 1000 50 ''sid_a2'') \<and>
        (\<forall>m. m \<noteq> ''alice'' \<longrightarrow>
           zscore (queue s') m = zscore (queue scenario_A) m \<and>
           players s' m = players scenario_A m) \<and>
        rooms s' = rooms scenario_A \<and> player_room s' = player_room scenario_A)"
proof -
  have h: "''alice'' \<in> zmembers (queue scenario_A)"
    by (simp add: scenario_A_eval zmembers_def)
  from add_to_queue_requeue[OF h, where uname = "''Alice''" and elo = 1000
      and sid = "''sid_a2''" and tq = 50 and ts = 50] h
  show ?thesis by (intro conjI)
qed

section \<open>Properties of rooms and submissions\<close>

lemma str_int_5: "str_int 5 = ''5''"
  by (simp add: str_int_def)

lemma duel_eval:
  "duel =
     \<lparr>queue = [(''carol'', 15)],
      players = [''alice'' \<mapsto> mk_player ''alice'' ''Alice'' 1000 10 ''sid_a'',
                 ''bob'' \<mapsto> mk_player ''bob'' ''Bob'' 1100 12 ''sid_b'',
                 ''carol'' \<mapsto> mk_player ''carol'' ''Carol'' 1500 15 ''sid_c''],
      rooms = [''room_0123456789ab'' \<mapsto> duel_room],
      player_room = [''alice'' \<mapsto> ''room_0123456789ab'', ''bob'' \<mapsto> ''room_0123456789ab'']\<rparr>"
  by (simp add: duel_def scenario_A_eval attempt_matchmaking_def get_queue_size_def zcard_def
      zrange_first_def zrange_all_def zkey_def find_best_match_def below_def zrem_def
      mk_player_def duel_room_def Let_def)

lemma update_test_results_found:
  assumes "rooms s rid = Some b"
  shows "update_test_results s rid pid p t =
     (s\<lparr>rooms := (rooms s)(rid \<mapsto>
          b\<lparr>total_tests := t,
            player1_tests := (if pid = user_id (player1 b) then p else player1_tests b),
            player2_tests := (if pid = user_id (player1 b) then player2_tests b else p),
            winner_id := (if p = t then Some pid else winner_id b),
            status := (if p = t then ''completed'' else status b)\<rparr>)\<rparr>, True)"
  using assms by (simp add: update_test_results_def get_battle_room_def Let_def)

lemma duel_won_eval:
  "duel_won = duel\<lparr>rooms := [''room_0123456789ab'' \<mapsto> duel_room_won]\<rparr>"
  by (simp add: duel_won_def duel_eval update_test_results_def get_battle_room_def
      mk_player_def duel_room_def duel_room_won_def Let_def)

subsection \<open>C5: the states of a room\<close>

text \<open>
  Claim C5 has a room created in the state \<^verbatim>\<open>pending\<close>, moved to \<^verbatim>\<open>in_progress\<close> by its
  first submission. \<^verbatim>\<open>attempt_matchmaking\<close> writes \<^verbatim>\<open>"status": "in_progress"\<close> into the room
  it creates, and no method writes \<^verbatim>\<open>pending\<close>: the room of Scenario A is in progress
  before any submission.
\<close>

theorem room_created_in_progress_counterexample:
  "map_option status (snd (attempt_matchmaking scenario_A ''palindrome'' ''0123456789abcdef'' 20))
     = Some ''in_progress'' \<and>
   ''in_progress'' \<noteq> ''pending''"
  using duel_eval
  by (simp add: scenario_A_eval attempt_matchmaking_def get_queue_size_def zcard_def
      zrange_first_def zrange_all_def zkey_def find_best_match_def below_def zrem_def
      mk_player_def Let_def)

text \<open>
  Claim C5, amended. A room is created in the state \<^verbatim>\<open>in_progress\<close>, with no winner, with
  counts 0 and with empty code for both participants. \<^verbatim>\<open>update_test_results\<close> on a room
  that exists sets the state to \<^verbatim>\<open>completed\<close> and the winner to the submitting identity
  when the passed count equals the total, and leaves both as they were otherwise: a room
  in progress is completed by a submission exactly when its passed count equals the
  total, and a completed room stays completed.
\<close>

theorem room_status_machine:
  "(attempt_matchmaking s cid hex now = (s', Some b) \<longrightarrow>
      status b = ''in_progress'' \<and> winner_id b = None \<and>
      player1_tests b = 0 \<and> player2_tests b = 0 \<and> total_tests b = 0 \<and>
      player1_code b = [] \<and> player2_code b = [] \<and>
      rooms s' (room_id b) = Some b) \<and>
   (rooms s rid = Some r \<longrightarrow>
      (\<exists>r'. update_test_results s rid pid p t = (s\<lparr>rooms := (rooms s)(rid \<mapsto> r')\<rparr>, True) \<and>
            status r' = (if p = t then ''completed'' else status r) \<and>
            winner_id r' = (if p = t then Some pid else winner_id r) \<and>
            (status r = ''in_progress'' \<longrightarrow> (status r' = ''completed'') = (p = t)) \<and>
            (status r = ''completed'' \<longrightarrow> status r' = ''completed'')))"
proof (rule conjI; rule impI)
  assume a: "attempt_matchmaking s cid hex now = (s', Some b)"
  then show "status b = ''in_progress'' \<and> winner_id b = None \<and>
      player1_tests b = 0 \<and> player2_tests b = 0 \<and> total_tests b = 0 \<and>
      player1_code b = [] \<and> player2_code b = [] \<and>
      rooms s' (room_id b) = Some b"
    by (auto simp: attempt_matchmaking_def Let_def split: if_splits list.splits option.splits)
next
  assume r: "rooms s rid = Some r"
  show "\<exists>r'. update_test_results s rid pid p t = (s\<lparr>rooms := (rooms s)(rid \<mapsto> r')\<rparr>, True) \<and>
            status r' = (if p = t then ''completed'' else status r) \<and>
            winner_id r' = (if p = t then Some pid else winner_id r) \<and>
            (status r = ''in_progress'' \<longrightarrow> (status r' = ''completed'') = (p = t)) \<and>
            (status r = ''completed'' \<longrightarrow> status r' = ''completed'')"
    unfolding update_test_results_found[OF r] by (rule exI, rule conjI, rule refl) simp
qed

theorem room_status_machine_witness:
  "attempt_matchmaking scenario_A ''palindrome'' ''0123456789abcdef'' 20 = (duel, Some duel_room) \<and>
   rooms duel ''room_0123456789ab'' = Some duel_room \<and>
   status duel_room = ''in_progress'' \<and> winner_id duel_room = None \<and>
   player1_tests duel_room = 0 \<and> player2_tests duel_room = 0 \<and> total_tests duel_room = 0 \<and>
   player1_code duel_room = [] \<and> player2_code duel_room = [] \<and>
   rooms duel (room_id duel_room) = Some duel_room \<and>
   (\<exists>r'. update_test_results duel ''room_0123456789ab'' ''alice'' 2 2
            = (duel\<lparr>rooms := (rooms duel)(''room_0123456789ab'' \<mapsto> r')\<rparr>, True) \<and>
         status r' = (if (2::int) = 2 then ''completed'' else status duel_room) \<and>
         winner_id r' = (if (2::int) = 2 then Some ''alice'' else winner_id duel_room) \<and>
         (status duel_room = ''in_progress'' \<longrightarrow> (status r' = ''completed'') = ((2::int) = 2)) \<and>
         (status duel_room = ''completed'' \<longrightarrow> status r' = ''completed''))"
proof -
  have h1: "attempt_matchmaking scenario_A ''palindrome'' ''0123456789abcdef'' 20
              = (duel, Some duel_room)"
    unfolding duel_eval
    by (simp add: scenario_A_eval attempt_matchmaking_def get_queue_size_def zcard_def
        zrange_first_def zrange_all_def zkey_def find_best_match_def below_def zrem_def
        mk_player_def duel_room_def Let_def)
  have h2: "rooms duel ''room_0123456789ab'' = Some duel_room"
    by (simp add: duel_eval)
  note c1 = room_status_machine[where s = scenario_A and cid = "''palindrome''"
      and hex = "''0123456789abcdef''" and now = 20 and s' = duel and b = duel_room,
      THEN conjunct1, rule_format, OF h1]
  note c2 = room_status_machine[where s = duel and rid = "''room_0123456789ab''"
      and r = duel_room and pid = "''alice''" and p = 2 and t = 2,
      THEN conjunct2, rule_format, OF h2]
  show ?thesis using h1 h2 c1 c2 by (intro conjI) blast+
qed

subsection \<open>C2: results for a completed room\<close>

text \<open>
  Claim C2 has every submission to a completed room refused, with the winner and the
  counts of the room fixed from then on. \<^verbatim>\<open>update_test_results\<close>, the one operation that
  writes a result into a room, does not read the status: after Alice has won with 2 of 2,
  recording Bob's 2 of 2 for the same room returns \<^verbatim>\<open>True\<close>, the winner becomes Bob and
  his count goes from 0 to 2.
\<close>

theorem update_test_results_completed_room_counterexample:
  "map_option status (rooms duel_won ''room_0123456789ab'') = Some ''completed'' \<and>
   map_option winner_id (rooms duel_won ''room_0123456789ab'') = Some (Some ''alice'') \<and>
   map_option player2_tests (rooms duel_won ''room_0123456789ab'') = Some 0 \<and>
   snd (update_test_results duel_won ''room_0123456789ab'' ''bob'' 2 2) = True \<and>
   map_option winner_id
     (rooms (fst (update_test_results duel_won ''room_0123456789ab'' ''bob'' 2 2))
        ''room_0123456789ab'') = Some (Some ''bob'') \<and>
   map_option player2_tests
     (rooms (fst (update_test_results duel_won ''room_0123456789ab'' ''bob'' 2 2))
        ''room_0123456789ab'') = Some 2"
  by (simp add: duel_won_eval duel_eval update_test_results_def get_battle_room_def
      mk_player_def duel_room_def duel_room_won_def Let_def)

text \<open>
  Claim C2, amended. For every battle room whose status is \<^verbatim>\<open>completed\<close>, recording the
  result of a later submission for that room (\<^verbatim>\<open>update_test_results\<close>) is not refused and
  gives no signal that the battle is over: it returns \<^verbatim>\<open>True\<close>, overwrites the room's
  total and the passed count of the submitter (player 1's if the submitter is player 1,
  player 2's otherwise), makes the submitter the winner when the passed count equals the
  total and leaves the winner unchanged when it does not. The status stays \<^verbatim>\<open>completed\<close>;
  the participants and their stored code are unchanged, and so is every other room.
\<close>

theorem update_test_results_completed_room:
  assumes "rooms s rid = Some b" and "status b = ''completed''"
  shows "\<exists>b'. update_test_results s rid pid p t = (s\<lparr>rooms := (rooms s)(rid \<mapsto> b')\<rparr>, True) \<and>
              status b' = ''completed'' \<and>
              total_tests b' = t \<and>
              player1_tests b' = (if pid = user_id (player1 b) then p else player1_tests b) \<and>
              player2_tests b' = (if pid = user_id (player1 b) then player2_tests b else p) \<and>
              winner_id b' = (if p = t then Some pid else winner_id b) \<and>
              player1 b' = player1 b \<and> player2 b' = player2 b \<and>
              player1_code b' = player1_code b \<and> player2_code b' = player2_code b"
  unfolding update_test_results_found[OF assms(1)]
  by (rule exI, rule conjI, rule refl) (simp add: assms(2))

theorem update_test_results_completed_room_witness:
  "rooms duel_won ''room_0123456789ab'' = Some duel_room_won \<and>
   status duel_room_won = ''completed'' \<and>
   (\<exists>b'. update_test_results duel_won ''room_0123456789ab'' ''bob'' 1 2
            = (duel_won\<lparr>rooms := (rooms duel_won)(''room_0123456789ab'' \<mapsto> b')\<rparr>, True) \<and>
         status b' = ''completed'' \<and>
         total_tests b' = 2 \<and>
         player1_tests b' =
           (if ''bob'' = user_id (player1 duel_room_won) then 1 else player1_tests duel_room_won) \<and>
         player2_tests b' =
           (if ''bob'' = user_id (player1 duel_room_won) then player2_tests duel_room_won else 1) \<and>
         winner_id b' = (if (1::int) = 2 then Some ''bob'' else winner_id duel_room_won) \<and>
         player1 b' = player1 duel_room_won \<and> player2 b' = player2 duel_room_won \<and>
         player1_code b' = player1_code duel_room_won \<and>
         player2_code b' = player2_code duel_room_won)"
proof -
  have h1: "rooms duel_won ''room_0123456789ab'' = Some duel_room_won"
    by (simp add: duel_won_eval)
  have h2: "status duel_room_won = ''completed''"
    by (simp add: duel_room_won_def)
  from update_test_results_completed_room[OF h1 h2, where pid = "''bob''" and p = 1 and t = 2]
  show ?thesis by (intro conjI h1 h2)
qed

subsection \<open>C10: a result for an identity that is not in the room\<close>

text \<open>
  Claim C10: when the submitter is neither participant of the room, the result is
  recorded as player 2's and, if every test passes, player 2 is recorded as the winner.
  \<^verbatim>\<open>update_test_results\<close> takes the branch of player 2 for the count and then stores
  \<^verbatim>\<open>winner_id = player_id\<close>, the submitter: for Mallory's 2 of 2 in the room of Alice and
  Bob the count 2 is Bob's and the room is completed with Mallory, who is not in it, as
  its winner.
\<close>

theorem update_test_results_outsider_winner:
  "map_option
     (\<lambda>b. (user_id (player1 b), user_id (player2 b), player1_tests b, player2_tests b,
           total_tests b, status b, winner_id b))
     (rooms (fst (update_test_results duel ''room_0123456789ab'' ''mallory'' 2 2))
        ''room_0123456789ab'')
     = Some (''alice'', ''bob'', 0, 2, 2, ''completed'', Some ''mallory'')"
  by (simp add: duel_eval update_test_results_def get_battle_room_def
      mk_player_def duel_room_def Let_def)

subsection \<open>C7: the counts of an execution\<close>

lemma execute_code_counts:
  assumes "execute_code ast_parse sandbox code cases fn t = Inr r"
  shows "0 \<le> passed_tests r \<and> passed_tests r \<le> total_tests_run r \<and>
         total_tests_run r = int (length cases)"
proof -
  have "length (filter (\<lambda>v. v = Passed) (map h cases)) \<le> length cases"
    for h :: "'a test_case \<Rightarrow> verdict"
    using length_filter_le[of "\<lambda>v. v = Passed" "map h cases"] by simp
  then show ?thesis
    using assms
    by (auto simp: execute_code_def run_sandbox_def Let_def
        split: sum.splits prod.splits run.splits if_splits)
qed

text \<open>
  Claim C7. Every result that \<^verbatim>\<open>execute_code\<close> returns for a submission, run on the test
  cases prepared from the challenge, has \<open>0 \<le> passed \<le> total\<close>, and its total is the number
  of test cases the challenge declares; when the validator rejects the program the
  passed count is 0 and the total is still that number. \<^verbatim>\<open>execute_code\<close> returns a result
  in every case but one: when \<^verbatim>\<open>ast.parse\<close> raises something other than a \<^verbatim>\<open>SyntaxError\<close>,
  the exception leaves it and there are no counts.
\<close>

theorem execution_counts:
  "case execute_code ast_parse sandbox code (prepare_test_cases ch) fn t of
     Inl e \<Rightarrow> ast_parse code = OtherError e
   | Inr r \<Rightarrow>
       0 \<le> passed_tests r \<and> passed_tests r \<le> total_tests_run r \<and>
       total_tests_run r = int (length (test_cases ch)) \<and>
       (\<forall>msg. check_forbidden_imports_ast ast_parse code = Inr (False, msg) \<longrightarrow>
          passed_tests r = 0 \<and> error r = msg)"
proof (cases "execute_code ast_parse sandbox code (prepare_test_cases ch) fn t")
  case (Inl e)
  then have "ast_parse code = OtherError e"
    by (auto simp: execute_code_def check_forbidden_imports_ast_def
        split: sum.splits prod.splits parse.splits option.splits if_splits)
  then show ?thesis using Inl by simp
next
  case (Inr r)
  have "\<forall>msg. check_forbidden_imports_ast ast_parse code = Inr (False, msg) \<longrightarrow>
          passed_tests r = 0 \<and> error r = msg"
    using Inr by (auto simp: execute_code_def)
  then show ?thesis
    using Inr execute_code_counts[OF Inr] by (simp add: prepare_test_cases_def)
qed

theorem execution_counts_witness:
  "(case execute_code parses_clean half_pass ''def is_palindrome(s): return True''
           (prepare_test_cases palindrome) ''is_palindrome'' 5 of
      Inl e \<Rightarrow> parses_clean ''def is_palindrome(s): return True'' = OtherError e
    | Inr r \<Rightarrow>
        0 \<le> passed_tests r \<and> passed_tests r \<le> total_tests_run r \<and>
        total_tests_run r = int (length (test_cases palindrome)) \<and>
        (\<forall>msg. check_forbidden_imports_ast parses_clean ''def is_palindrome(s): return True''
                 = Inr (False, msg) \<longrightarrow>
           passed_tests r = 0 \<and> error r = msg)) \<and>
   map_sum id (\<lambda>r. (passed_tests r, total_tests_run r, test_results r))
     (execute_code parses_clean half_pass ''def is_palindrome(s): return True''
        (prepare_test_cases palindrome) ''is_palindrome'' 5)
     = Inr (1, 2, [Passed, Failed ''expected False'']) \<and>
   (case execute_code (parses_to import_tree) half_pass ''import os.path as p''
           (prepare_test_cases palindrome) ''is_palindrome'' 5 of
      Inl e \<Rightarrow> parses_to import_tree ''import os.path as p'' = OtherError e
    | Inr r \<Rightarrow>
        0 \<le> passed_tests r \<and> passed_tests r \<le> total_tests_run r \<and>
        total_tests_run r = int (length (test_cases palindrome)) \<and>
        (\<forall>msg. check_forbidden_imports_ast (parses_to import_tree) ''import os.path as p''
                 = Inr (False, msg) \<longrightarrow>
           passed_tests r = 0 \<and> error r = msg)) \<and>
   check_forbidden_imports_ast (parses_to import_tree) ''import os.path as p''
     = Inr (False, ''Forbidden import detected: os'') \<and>
   map_sum id (\<lambda>r. (passed_tests r, total_tests_run r, test_results r))
     (execute_code (parses_to import_tree) half_pass ''import os.path as p''
        (prepare_test_cases palindrome) ''is_palindrome'' 5)
     = Inr (0, 2, [])"
proof -
  have accepted: "map_sum id (\<lambda>r. (passed_tests r, total_tests_run r, test_results r))
     (execute_code parses_clean half_pass ''def is_palindrome(s): return True''
        (prepare_test_cases palindrome) ''is_palindrome'' 5)
     = Inr (1, 2, [Passed, Failed ''expected False''])"
    by (simp add: execute_code_def check_forbidden_imports_ast_def parses_clean_def
        half_pass_def run_sandbox_def prepare_test_cases_def palindrome_def Let_def)
  have rejects: "check_forbidden_imports_ast (parses_to import_tree) ''import os.path as p''
     = Inr (False, ''Forbidden import detected: os'')"
    by (simp add: check_forbidden_imports_ast_def parses_to_def import_tree_def
        FORBIDDEN_IMPORTS_def top_module_def)
  have rejected: "map_sum id (\<lambda>r. (passed_tests r, total_tests_run r, test_results r))
     (execute_code (parses_to import_tree) half_pass ''import os.path as p''
        (prepare_test_cases palindrome) ''is_palindrome'' 5)
     = Inr (0, 2, [])"
    by (simp add: execute_code_def rejects prepare_test_cases_def palindrome_def)
  note t1 = execution_counts[where ast_parse = parses_clean and sandbox = half_pass
      and code = "''def is_palindrome(s): return True''" and ch = palindrome
      and fn = "''is_palindrome''" and t = 5]
  note t2 = execution_counts[where ast_parse = "parses_to import_tree" and sandbox = half_pass
      and code = "''import os.path as p''" and ch = palindrome
      and fn = "''is_palindrome''" and t = 5]
  show ?thesis by (intro conjI t1 accepted t2 rejects rejected)
qed

subsection \<open>C4: the validator and reflective lookups\<close>

text \<open>
  Claim C4 has the validator reject every program that reaches a dynamic import, by a
  reflective lookup such as \<^verbatim>\<open>getattr(__builtins__, '__import__')\<close> too, as the comment
  in \<^verbatim>\<open>check_forbidden_imports_ast\<close> says it does. The check of a call looks at a
  function that is a \<^verbatim>\<open>Name\<close> or an \<^verbatim>\<open>Attribute\<close> only: in
  \<^verbatim>\<open>getattr(__builtins__, '__import__')('os')\<close> the outer call's function is a call and the
  inner call's function is the name \<^verbatim>\<open>getattr\<close>, which is not in the list. The validator
  accepts the program and \<^verbatim>\<open>execute_code\<close> hands it to the sandbox.
\<close>

theorem validator_accepts_getattr_import:
  "check_forbidden_imports_ast (\<lambda>src. Tree getattr_tree) code = Inr (True, []) \<and>
   execute_code (\<lambda>src. Tree getattr_tree) sandbox code cases fn t
     = Inr (run_sandbox (sandbox code cases fn t) cases)"
  by (simp add: execute_code_def check_forbidden_imports_ast_def getattr_tree_def)

text \<open>The direct forms are rejected: an aliased import and a call of \<^verbatim>\<open>__import__\<close>.\<close>

lemma validator_rejects_direct_forms:
  "check_forbidden_imports_ast (\<lambda>src. Tree import_tree) code
     = Inr (False, ''Forbidden import detected: os'') \<and>
   check_forbidden_imports_ast (\<lambda>src. Tree dunder_import_tree) code
     = Inr (False, ''Dangerous function call blocked: __import__'')"
  by (simp add: check_forbidden_imports_ast_def import_tree_def dunder_import_tree_def
      FORBIDDEN_IMPORTS_def top_module_def)

section \<open>Properties of the Java executor\<close>

subsection \<open>C6: a run that outlives the timeout\<close>

text \<open>
  Claim C6. When the execution of an accepted program outlives its timeout, which
  \<^verbatim>\<open>subprocess.run\<close> reports by raising \<^verbatim>\<open>TimeoutExpired\<close> once it has killed the child,
  \<^verbatim>\<open>execute_java_code\<close> answers with the timeout failure: no success, zero passed tests,
  the number of test cases as total, the message \<^verbatim>\<open>Timeout: execution exceeded {timeout}s\<close>
  and no test results. The answer does not depend on anything the process printed
  (\<open>loads\<close> is arbitrary), so nothing partial is parsed. The same holds when the
  compilation step is the one that times out.
\<close>

theorem execute_java_code_timeout:
  assumes "fst (check_forbidden_imports_java code)"
    and "javac = TimeoutExpired \<or> (\<exists>out err. javac = Exited 0 out err \<and> java = TimeoutExpired)"
  shows "execute_java_code javac java loads code tests cls t =
           \<lparr>j_success = False, j_passed_tests = 0, j_total_tests = int (length tests),
            j_error = Some (''Timeout: execution exceeded '' @ str_int t @ ''s''),
            j_test_results = None\<rparr>"
  using assms
  by (auto simp: execute_java_code_def java_failure_def split: prod.splits)

theorem execute_java_code_timeout_witness:
  "fst (check_forbidden_imports_java ''class Solution {}'') \<and>
   (Exited 0 [] [] = TimeoutExpired \<or>
    (\<exists>out err. Exited 0 [] [] = Exited 0 out err \<and> TimeoutExpired = TimeoutExpired)) \<and>
   execute_java_code (Exited 0 [] []) TimeoutExpired (\<lambda>out. Inr (2, 2, [True, True]))
       ''class Solution {}'' [''aba'', ''ab''] ''Solution'' 5 =
     \<lparr>j_success = False, j_passed_tests = 0, j_total_tests = 2,
      j_error = Some ''Timeout: execution exceeded 5s'',
      j_test_results = None\<rparr>"
proof -
  have h1: "fst (check_forbidden_imports_java ''class Solution {}'')"
    by (simp add: check_forbidden_imports_java_def FORBIDDEN_def sublist_code prefix_code)
  have h2: "Exited 0 [] [] = TimeoutExpired \<or>
    (\<exists>out err. Exited 0 [] [] = Exited 0 out err \<and> TimeoutExpired = TimeoutExpired)"
    by simp
  from execute_java_code_timeout[OF h1 h2, where loads = "\<lambda>out. Inr (2, 2, [True, True])"
      and tests = "[''aba'', ''ab'']" and cls = "''Solution''" and t = 5]
  show ?thesis using h1 h2 by (simp add: str_int_5)
qed

section \<open>Properties of synchronisation and disconnection\<close>

subsection \<open>C8: synchronising the same code twice\<close>

text \<open>
  Claim C8: two successive \<^verbatim>\<open>sync_code\<close> events with the same code produce nothing
  beyond what the first produced, the opponent's view being a function of the latest
  code alone. The comment in \<^verbatim>\<open>sync_code\<close> announces a filter for the same code synced
  again within 200 ms; the test it guards compares client times only and never looks at
  the code. Alice's \<^verbatim>\<open>old\<close> was applied at time 1000. Her \<^verbatim>\<open>new\<close> at 1100 is dropped
  although it is not the code synced before: nothing is stored or emitted and Bob still
  sees \<^verbatim>\<open>old\<close>. The same \<^verbatim>\<open>new\<close> at 1300 is then applied and changes what Bob sees: the
  second of two events with identical code has an effect that the first did not have.
  This holds whatever \<^verbatim>\<open>update_player_code\<close> does to the store.
\<close>

theorem sync_code_drops_changed_code:
  "map_option player1_code (rooms (store typing_server) ''room_0123456789ab'') = Some ''old'' \<and>
   last_sync_timestamps typing_server ''room_0123456789ab:alice'' = Some 1000 \<and>
   sync_code upc typing_server ''sid_a'' ''alice'' ''room_0123456789ab'' ''new'' (Some 1100)
     = (typing_server, []) \<and>
   snd (sync_code upc typing_server ''sid_a'' ''alice'' ''room_0123456789ab'' ''new'' (Some 1300))
     = [Opponent_code_update ''room_0123456789ab'' ''sid_a'' ''new'' ''alice'' 1300] \<and>
   opponent_code_after ''room_0123456789ab'' ''sid_b'' ''old''
     (snd (sync_code upc typing_server ''sid_a'' ''alice'' ''room_0123456789ab'' ''new''
             (Some 1100)))
     = ''old'' \<and>
   opponent_code_after ''room_0123456789ab'' ''sid_b'' ''old''
     (snd (sync_code upc typing_server ''sid_a'' ''alice'' ''room_0123456789ab'' ''new''
             (Some 1100)) @
      snd (sync_code upc typing_server ''sid_a'' ''alice'' ''room_0123456789ab'' ''new''
             (Some 1300)))
     = ''new''"
  by (simp add: typing_server_def duel_server_def sync_code_def get_battle_room_def
      opponent_code_after_def Let_def)

subsection \<open>C9: disconnecting during a battle\<close>

text \<open>
  Claim C9. When the socket of a participant who is in a room disconnects, \<^verbatim>\<open>disconnect\<close>
  changes the queue (the identity is removed, with its \<^verbatim>\<open>player:\<close> document) and the two
  connection maps, and nothing else: every room, with all its fields, and the
  player-to-room entries are as before, so the identity's room is still found by
  \<^verbatim>\<open>get_player_battle_room\<close> when it reconnects. The handler neither deletes nor rewrites
  a \<^verbatim>\<open>room:\<close> key; how long the store then keeps it is the expiry given at its last write
  (\<^verbatim>\<open>ex=3600\<close>), which is not part of the model.
\<close>

theorem disconnect_keeps_room:
  assumes "socket_to_user sv sid = Some uid" and "uid \<noteq> []"
    and "player_room (store sv) uid = Some rid" and "rooms (store sv) rid = Some b"
  shows "rooms (store (disconnect sv sid)) = rooms (store sv) \<and>
         player_room (store (disconnect sv sid)) = player_room (store sv) \<and>
         rooms (store (disconnect sv sid)) rid = Some b \<and>
         get_player_battle_room (store (disconnect sv sid)) uid
           = get_player_battle_room (store sv) uid \<and>
         uid \<notin> zmembers (queue (store (disconnect sv sid))) \<and>
         queue (store (disconnect sv sid)) = zrem (queue (store sv)) uid \<and>
         players (store (disconnect sv sid)) = (players (store sv))(uid := None) \<and>
         connected_users (disconnect sv sid) = (connected_users sv)(uid := None) \<and>
         socket_to_user (disconnect sv sid) = (socket_to_user sv)(sid := None) \<and>
         last_sync_timestamps (disconnect sv sid) = last_sync_timestamps sv"
  using assms
  by (simp add: disconnect_def remove_from_queue_def get_player_battle_room_def
      get_battle_room_def zrem_members)

theorem disconnect_keeps_room_witness:
  "socket_to_user rejoined_server ''sid_a'' = Some ''alice'' \<and> ''alice'' \<noteq> [] \<and>
   player_room (store rejoined_server) ''alice'' = Some ''room_0123456789ab'' \<and>
   rooms (store rejoined_server) ''room_0123456789ab'' = Some duel_room \<and>
   ''alice'' \<in> zmembers (queue (store rejoined_server)) \<and>
   rooms (store (disconnect rejoined_server ''sid_a'')) = rooms (store rejoined_server) \<and>
   player_room (store (disconnect rejoined_server ''sid_a'')) = player_room (store rejoined_server) \<and>
   rooms (store (disconnect rejoined_server ''sid_a'')) ''room_0123456789ab'' = Some duel_room \<and>
   get_player_battle_room (store (disconnect rejoined_server ''sid_a'')) ''alice''
     = get_player_battle_room (store rejoined_server) ''alice'' \<and>
   ''alice'' \<notin> zmembers (queue (store (disconnect rejoined_server ''sid_a''))) \<and>
   queue (store (disconnect rejoined_server ''sid_a''))
     = zrem (queue (store rejoined_server)) ''alice'' \<and>
   players (store (disconnect rejoined_server ''sid_a''))
     = (players (store rejoined_server))(''alice'' := None) \<and>
   connected_users (disconnect rejoined_server ''sid_a'')
     = (connected_users rejoined_server)(''alice'' := None) \<and>
   socket_to_user (disconnect rejoined_server ''sid_a'')
     = (socket_to_user rejoined_server)(''sid_a'' := None) \<and>
   last_sync_timestamps (disconnect rejoined_server ''sid_a'')
     = last_sync_timestamps rejoined_server"
proof -
  have h1: "socket_to_user rejoined_server ''sid_a'' = Some ''alice''"
    by (simp add: rejoined_server_def duel_server_def)
  have h2: "''alice'' \<noteq> []" by simp
  have h3: "player_room (store rejoined_server) ''alice'' = Some ''room_0123456789ab''"
    by (simp add: rejoined_server_def duel_server_def add_to_queue_def duel_eval)
  have h4: "rooms (store rejoined_server) ''room_0123456789ab'' = Some duel_room"
    by (simp add: rejoined_server_def duel_server_def add_to_queue_def duel_eval)
  have h5: "''alice'' \<in> zmembers (queue (store rejoined_server))"
    by (simp add: rejoined_server_def duel_server_def add_to_queue_def duel_eval zmembers_def)
  from disconnect_keeps_room[OF h1 h2 h3 h4]
  show ?thesis using h1 h2 h3 h4 h5 by (intro conjI) blast+
qed


end
